theory Spec2Isabelle
  imports Complex_Main "HOL-Library.Sublist"
begin

section \<open>Query strings: \<open>toQueryString\<close>\<close>

text \<open>
  Strings are lists of bytes (the UTF-8 encoding of the JavaScript string). The values
  of an \<open>IDictionary<string | string[] | undefined>\<close> are a string, a list of strings
  or \<open>undefined\<close>; the dictionary itself is the list of its entries in the order
  \<open>Object.entries\<close> enumerates them.
\<close>

datatype qvalue = QString string | QList "string list" | QUndefined

type_synonym dictionary = "(string \<times> qvalue) list"

text \<open>
  \<open>encodeURIComponent\<close> (a built-in of the platform) on a well-formed string: the
  unreserved characters \<open>A-Z a-z 0-9 - _ . ! ~ * ' ( )\<close> stay, every other byte of the
  UTF-8 encoding becomes \<open>%XX\<close> with upper-case hexadecimal digits.
\<close>

definition unreserved :: "char \<Rightarrow> bool" where
  "unreserved c =
     (let n = of_char c :: nat in
        (65 \<le> n \<and> n \<le> 90) \<or> (97 \<le> n \<and> n \<le> 122) \<or> (48 \<le> n \<and> n \<le> 57)
        \<or> c \<in> set ''-_.!~*'()'')"

definition hexDigit :: "nat \<Rightarrow> char" where
  "hexDigit n = (if n < 10 then char_of (48 + n) else char_of (55 + n))"

definition percentEncode :: "char \<Rightarrow> string" where
  "percentEncode c =
     (let n = of_char c :: nat in [CHR ''%'', hexDigit (n div 16), hexDigit (n mod 16)])"

definition encodeURIComponent :: "string \<Rightarrow> string" where
  "encodeURIComponent s = concat (map (\<lambda>c. if unreserved c then [c] else percentEncode c) s)"

text \<open>\<open>Array.prototype.join\<close>: the elements with the separator between them.\<close>

fun join :: "string \<Rightarrow> string list \<Rightarrow> string" where
  "join sep [] = []"
| "join sep [x] = x"
| "join sep (x # y # ys) = x @ sep @ join sep (y # ys)"

text \<open>\<open>Boolean\<close> on a string: the empty string is falsy, every other string truthy.\<close>

definition Boolean_string :: "string \<Rightarrow> bool" where
  "Boolean_string s = (s \<noteq> [])"

text \<open>\<open>const parse = (list) => list.filter(Boolean).join("&")\<close>\<close>

definition parse :: "string list \<Rightarrow> string" where
  "parse list = join ''&'' (filter Boolean_string list)"

text \<open>
  \<open>([] as string[]).concat(value)\<close>: a list is spread, anything else becomes the single
  element. (An \<open>undefined\<close> never gets here, the filter before it removes it; the
  template string would print it as \<open>undefined\<close>.)
\<close>

fun concat_value :: "qvalue \<Rightarrow> string list" where
  "concat_value (QString s) = [s]"
| "concat_value (QList vs) = vs"
| "concat_value QUndefined = [''undefined'']"

definition pair_string :: "string \<Rightarrow> string \<Rightarrow> string" where
  "pair_string key val = encodeURIComponent key @ ''='' @ encodeURIComponent val"

definition toQueryString :: "dictionary \<Rightarrow> string" where
  "toQueryString obj =
     parse (map (\<lambda>(key, value). parse (map (pair_string key) (concat_value value)))
                (filter (\<lambda>(key, value). value \<noteq> QUndefined) obj))"

text \<open>
  The specification's reading of the same function, written without any of the
  definitions above. Percent-encoding: a character of the unreserved set stands for
  itself, every other byte is written \<open>%\<close> and its two hexadecimal digits.
\<close>

definition unreserved_characters :: string where
  "unreserved_characters =
     ''ABCDEFGHIJKLMNOPQRSTUVWXYZabcdefghijklmnopqrstuvwxyz0123456789-_.!~*'()''"

definition hex_digits :: string where
  "hex_digits = ''0123456789ABCDEF''"

definition percent_encoded :: "string \<Rightarrow> string" where
  "percent_encoded s =
     concat (map (\<lambda>c. if c \<in> set unreserved_characters then [c]
                     else [CHR ''%'', hex_digits ! (of_char c div 16),
                           hex_digits ! (of_char c mod 16)]) s)"

text \<open>
  Every entry contributes its list of \<open>key=value\<close> pairs, key and value
  percent-encoded: none for \<open>undefined\<close>, one for a string, one per element for a list,
  in list order.
\<close>

fun spec_pairs :: "string \<times> qvalue \<Rightarrow> string list" where
  "spec_pairs (key, QUndefined) = []"
| "spec_pairs (key, QString v) = [percent_encoded key @ ''='' @ percent_encoded v]"
| "spec_pairs (key, QList vs) =
     map (\<lambda>v. percent_encoded key @ ''='' @ percent_encoded v) vs"

text \<open>All pairs are joined by \<open>&\<close>; no pair gives the empty string.\<close>

fun joined_by_ampersand :: "string list \<Rightarrow> string" where
  "joined_by_ampersand [] = []"
| "joined_by_ampersand (x # xs) = x @ concat (map (\<lambda>y. ''&'' @ y) xs)"

definition toQueryString_spec :: "dictionary \<Rightarrow> string" where
  "toQueryString_spec obj = joined_by_ampersand (concat (map spec_pairs obj))"

section \<open>The JSON client: \<open>fetchJSON\<close>\<close>

subsection \<open>Values\<close>

text \<open>
  \<open>JSONValue\<close>: a primitive (string, number, boolean, null), an array or an object (its
  entries in enumeration order). Every finite JavaScript number is a real number.
\<close>

datatype json =
    JNull
  | JBoolean bool
  | JNumber real
  | JString string
  | JArray "json list"
  | JObject "(string \<times> json) list"

text \<open>The truthiness JavaScript's \<open>if (body)\<close> tests.\<close>

fun truthy :: "json \<Rightarrow> bool" where
  "truthy JNull = False"
| "truthy (JBoolean b) = b"
| "truthy (JNumber x) = (x \<noteq> 0)"
| "truthy (JString s) = (s \<noteq> [])"
| "truthy (JArray xs) = True"
| "truthy (JObject kvs) = True"

text \<open>Structured data: an object or an array.\<close>

fun structured :: "json \<Rightarrow> bool" where
  "structured (JArray xs) = True"
| "structured (JObject kvs) = True"
| "structured j = False"

text \<open>
  The text \<open>JSON.stringify\<close> returns for a value. The serializer is the platform's; its
  result is kept symbolic, as the value it serializes.
\<close>

datatype json_text = JSON_stringify json

subsection \<open>Errors\<close>

definition TAKE_TOO_LONG :: string where
  "TAKE_TOO_LONG = ''Request take too long to complete''"

definition TIME_OUT :: string where
  "TIME_OUT = ''Request timeout''"

datatype FetchJSONError =
  FetchJSONError (message: string) (status: int) (statusText: string)

definition buildFetchJSONError :: "string \<Rightarrow> int \<Rightarrow> string \<Rightarrow> FetchJSONError" where
  "buildFetchJSONError msg st stText = FetchJSONError msg st stText"

text \<open>
  What the returned promise can reject with: an error \<open>fetchJSON\<close> builds, the reason the
  platform's \<open>fetch\<close> rejected with (handed on unchanged), or the syntax error of
  \<open>response.json()\<close> on a body that is not JSON.
\<close>

datatype rejection =
    Built FetchJSONError
  | Fetch_failed string
  | Json_syntax_error

subsection \<open>Requests\<close>

text \<open>
  \<open>FetchJSONProps\<close>: a field is \<open>None\<close> when the key is absent. Of the native options
  that \<open>customConfig\<close> collects, \<open>method\<close> is the one that meets what \<open>fetchJSON\<close>
  computes; the others are handed to \<open>fetch\<close> untouched and are left out.
\<close>

record FetchJSONProps =
  body :: "json option"
  token :: "string option"
  headers :: "(string \<rightharpoonup> string) option"
  queryParams :: "dictionary option"
  "method" :: "string option"

text \<open>\<open>temp\<close> and \<open>headers\<close> as they stand before the configuration is assembled.\<close>

record prepared =
  temp_method :: string
  temp_body :: "json_text option"
  own_headers :: "string \<rightharpoonup> string"

definition with_token :: "string option \<Rightarrow> prepared \<Rightarrow> prepared" where
  "with_token tok p =
     (case tok of
        None \<Rightarrow> p
      | Some t \<Rightarrow>
          if t \<noteq> [] then p\<lparr>own_headers := (own_headers p)(''Authorization'' \<mapsto> ''Bearer '' @ t)\<rparr>
          else p)"

definition with_body :: "json option \<Rightarrow> prepared \<Rightarrow> prepared" where
  "with_body b p =
     (case b of
        None \<Rightarrow> p
      | Some j \<Rightarrow>
          if truthy j then
            p\<lparr>temp_method := ''POST'',
              temp_body := Some (JSON_stringify j),
              own_headers := (own_headers p)(''Content-Type'' \<mapsto> ''application/json'')\<rparr>
          else p)"

definition prepare :: "FetchJSONProps \<Rightarrow> prepared" where
  "prepare props =
     with_body (body props)
       (with_token (token props)
          \<lparr>temp_method = ''GET'', temp_body = None, own_headers = Map.empty\<rparr>)"

definition query :: "FetchJSONProps \<Rightarrow> string" where
  "query props = (case queryParams props of None \<Rightarrow> [] | Some q \<Rightarrow> ''?'' @ toQueryString q)"

text \<open>The call \<open>fetch(`${endpoint}${query}`, config)\<close>.\<close>

record request =
  url :: string
  req_method :: string
  req_headers :: "string \<rightharpoonup> string"
  req_body :: "json_text option"

definition fetch_call :: "string \<Rightarrow> FetchJSONProps \<Rightarrow> request" where
  "fetch_call endpoint props =
     (let p = prepare props in
        \<lparr>url = endpoint @ query props,
         req_method = (case method props of None \<Rightarrow> temp_method p | Some m \<Rightarrow> m),
         req_headers = own_headers p ++ (case headers props of None \<Rightarrow> Map.empty | Some h \<Rightarrow> h),
         req_body = temp_body p\<rparr>)"

subsection \<open>Responses\<close>

text \<open>
  A \<open>Response\<close> of the platform, by what \<open>fetchJSON\<close> reads of it: the status line, the
  headers (\<open>Headers.get\<close> looks names up in lower case), the text \<open>text()\<close> yields and
  what \<open>json()\<close> yields (\<open>None\<close> when the body is not JSON and \<open>json()\<close> rejects);
  \<open>parsedBody\<close> is the field \<open>HttpResponse\<close> adds.
\<close>

record response =
  r_status :: int
  r_statusText :: string
  r_headers :: "string \<rightharpoonup> string"
  r_text :: string
  r_json :: "json option"
  parsedBody :: "json option"

definition ok :: "response \<Rightarrow> bool" where
  "ok r = (200 \<le> r_status r \<and> r_status r \<le> 299)"

text \<open>\<open>String.prototype.includes\<close>\<close>

fun string_includes :: "string \<Rightarrow> string \<Rightarrow> bool" where
  "string_includes [] t = (t = [])"
| "string_includes (c # cs) t = (prefix t (c # cs) \<or> string_includes cs t)"

definition isJsonType :: "response \<Rightarrow> bool" where
  "isJsonType r =
     (case r_headers r ''content-type'' of
        None \<Rightarrow> False
      | Some contentType \<Rightarrow> contentType \<noteq> [] \<and> string_includes contentType ''application/json'')"

subsection \<open>Promises\<close>

datatype ('a, 'e) promise = Pending | Fulfilled 'a | Rejected 'e

text \<open>Only the first call of \<open>resolve\<close> or \<open>reject\<close> settles a promise.\<close>

definition resolve :: "'a \<Rightarrow> ('a, 'e) promise \<Rightarrow> ('a, 'e) promise" where
  "resolve v p = (case p of Pending \<Rightarrow> Fulfilled v | Fulfilled x \<Rightarrow> p | Rejected e \<Rightarrow> p)"

definition reject :: "'e \<Rightarrow> ('a, 'e) promise \<Rightarrow> ('a, 'e) promise" where
  "reject e p = (case p of Pending \<Rightarrow> Rejected e | Fulfilled x \<Rightarrow> p | Rejected e' \<Rightarrow> p)"

text \<open>\<open>p.then(f)\<close> with no rejection handler.\<close>

definition then_promise ::
  "('a \<Rightarrow> ('b, 'e) promise) \<Rightarrow> ('a, 'e) promise \<Rightarrow> ('b, 'e) promise" where
  "then_promise f p = (case p of Pending \<Rightarrow> Pending | Fulfilled v \<Rightarrow> f v | Rejected e \<Rightarrow> Rejected e)"

subsection \<open>The call\<close>

text \<open>
  What happens after the call, in the order the event loop delivers it: the timer of
  \<open>setTimeout\<close> fires, or the promise of \<open>fetch\<close> settles.
\<close>

datatype event = Timer_fires | Fetch_fulfils response | Fetch_rejects string

definition timer_set :: "real option \<Rightarrow> bool" where
  "timer_set timeout = (case timeout of None \<Rightarrow> False | Some t \<Rightarrow> t > 0)"

fun deliver ::
  "bool \<Rightarrow> (response, rejection) promise \<Rightarrow> event \<Rightarrow> (response, rejection) promise" where
  "deliver armed p Timer_fires =
     (if armed then reject (Built (buildFetchJSONError TAKE_TOO_LONG 408 TIME_OUT)) p else p)"
| "deliver armed p (Fetch_fulfils r) = resolve r p"
| "deliver armed p (Fetch_rejects e) = reject (Fetch_failed e) p"

definition race :: "real option \<Rightarrow> event list \<Rightarrow> (response, rejection) promise" where
  "race timeout events = foldl (deliver (timer_set timeout)) Pending events"

text \<open>The handler of \<open>.then(async (response) => ...)\<close>.\<close>

definition onResponse :: "response \<Rightarrow> (response, rejection) promise" where
  "onResponse r =
     (if \<not> ok r then
        Rejected (Built (buildFetchJSONError (r_text r) (r_status r) (r_statusText r)))
      else if isJsonType r then
        (case r_json r of
           None \<Rightarrow> Rejected Json_syntax_error
         | Some j \<Rightarrow> Fulfilled (r\<lparr>parsedBody := Some j\<rparr>))
      else Fulfilled (r\<lparr>parsedBody := Some (JString (r_text r))\<rparr>))"

text \<open>
  \<open>fetchJSON\<close>: the state of the returned promise once the events the environment
  answers the request with have been delivered.
\<close>

definition fetchJSON ::
  "string \<Rightarrow> FetchJSONProps \<Rightarrow> real option \<Rightarrow> (request \<Rightarrow> event list) \<Rightarrow>
   (response, rejection) promise" where
  "fetchJSON endpoint props timeout env =
     then_promise onResponse (race timeout (env (fetch_call endpoint props)))"

section \<open>The counter\<close>

subsection \<open>The entity and its model\<close>

text \<open>\<open>Counter\<close>: one number, an integer.\<close>

record Counter =
  "value" :: int

text \<open>
  Modelled from the spec: \<open>create\<close> of \<open>counterModel\<close>, which \<open>counterService\<close> imports and
  which is not among the sources. The specification calls it a pure factory that builds a
  Counter from a primitive number.
\<close>

definition create :: "int \<Rightarrow> Counter" where
  "create n = \<lparr>value = n\<rparr>"

subsection \<open>The simulated remote service\<close>

text \<open>
  \<open>counterService\<close> keeps the module-level variable \<open>count\<close> and answers through
  promises that a timer of 1000 ms resolves. The state holds \<open>count\<close>, the clock of the
  timers, the timers set and not yet fired (deadline and callback, in the order they were
  set) and the promises handed out, by number.
\<close>

datatype task =
    Resolve_count nat
  | Store_then_resolve Counter nat

record service =
  count :: int
  now :: nat
  timers :: "(nat \<times> task) list"
  promises :: "nat \<Rightarrow> (Counter, unit) promise"
  issued :: nat

definition new_Promise :: "service \<Rightarrow> nat \<times> service" where
  "new_Promise s = (issued s, s\<lparr>promises := (promises s)(issued s := Pending), issued := Suc (issued s)\<rparr>)"

definition setTimeout :: "task \<Rightarrow> nat \<Rightarrow> service \<Rightarrow> service" where
  "setTimeout callback delay s = s\<lparr>timers := timers s @ [(now s + delay, callback)]\<rparr>"

definition getCounter :: "service \<Rightarrow> nat \<times> service" where
  "getCounter s = (case new_Promise s of (p, s') \<Rightarrow> (p, setTimeout (Resolve_count p) 1000 s'))"


text \<open>The callbacks: \<open>resolve(create(count))\<close>, after \<open>count = counter.value\<close> for an update.\<close>

fun run_task :: "service \<Rightarrow> task \<Rightarrow> service" where
  "run_task s (Resolve_count p) =
     s\<lparr>promises := (promises s)(p := resolve (create (count s)) (promises s p))\<rparr>"
| "run_task s (Store_then_resolve counter p) =
     (let s' = s\<lparr>count := value counter\<rparr>
      in s'\<lparr>promises := (promises s')(p := resolve (create (count s')) (promises s' p))\<rparr>)"

text \<open>
  Time passes: the timers due within the next \<open>ms\<close> milliseconds fire, earliest deadline
  first and in the order they were set where deadlines agree.
\<close>

definition advanceTimersByTime :: "nat \<Rightarrow> service \<Rightarrow> service" where
  "advanceTimersByTime ms s =
     (let target = now s + ms;
          due = sort_key fst (filter (\<lambda>(deadline, callback). deadline \<le> target) (timers s));
          later = filter (\<lambda>(deadline, callback). \<not> deadline \<le> target) (timers s)
      in (foldl run_task s (map snd due))\<lparr>now := target, timers := later\<rparr>)"

subsection \<open>The use cases\<close>

text \<open>
  Modelled from the spec: \<open>increment\<close> of \<open>counterModel\<close>, not among the sources. The next
  value is \<open>value + 1\<close>.
\<close>

definition increment :: "Counter \<Rightarrow> Counter" where
  "increment c = create (value c + 1)"

text \<open>
  Modelled from the spec: \<open>decrement\<close> of \<open>counterModel\<close>, not among the sources. The next
  value is \<open>value - 1\<close>, clamped so that it never goes below 0: at 0 it stays 0.
\<close>

definition decrement :: "Counter \<Rightarrow> Counter" where
  "decrement c = create (max 0 (value c - 1))"


text \<open>
  Modelled from the spec: the store the use cases work on (\<open>counter\<close>, \<open>setCounter\<close>,
  \<open>updateCounter\<close>), with its loaded counter and what was done to it: the calls of
  \<open>setCounter\<close> and the calls of \<open>updateCounter\<close> with the time of each. Beside it the
  clock and the pending timer of the debounce (deadline and the value to send).
\<close>

record world =
  counter :: Counter
  setCounter_calls :: "Counter list"
  updateCounter_calls :: "(nat \<times> Counter) list"
  clock :: nat
  pending :: "(nat \<times> Counter) option"

text \<open>Modelled from the spec: the debounce window of the use cases, 500 ms.\<close>

definition debounce_window :: nat where
  "debounce_window = 500"

text \<open>
  Modelled from the spec: \<open>store.setCounter\<close>, the synchronous local update, here also
  recorded.
\<close>

definition setCounter :: "Counter \<Rightarrow> world \<Rightarrow> world" where
  "setCounter c w = w\<lparr>counter := c, setCounter_calls := setCounter_calls w @ [c]\<rparr>"

text \<open>
  Modelled from the spec: scheduling the remote persistence after the window. There is
  one pending timer, shared by the two use cases; a call of either replaces it.
\<close>

definition schedule_update :: "Counter \<Rightarrow> world \<Rightarrow> world" where
  "schedule_update c w = w\<lparr>pending := Some (clock w + debounce_window, c)\<rparr>"

text \<open>
  Modelled from the spec: the steps the two use cases share. Read the counter of the
  store, compute the next value, call \<open>store.setCounter(next)\<close> at once and schedule
  \<open>store.updateCounter(next)\<close> for when the window has elapsed.
\<close>

definition use_case_steps :: "(Counter \<Rightarrow> Counter) \<Rightarrow> world \<Rightarrow> world" where
  "use_case_steps next_of w =
     (let next = next_of (counter w) in schedule_update next (setCounter next w))"

text \<open>
  Modelled from the spec: \<open>incrementCounterUseCase\<close>, not among the sources (its test is):
  the steps with \<open>value + 1\<close>.
\<close>

definition incrementCounterUseCase :: "world \<Rightarrow> world" where
  "incrementCounterUseCase w = use_case_steps increment w"

text \<open>
  Modelled from the spec: \<open>decrementCounterUseCase\<close>, not among the sources (its test is):
  the steps with \<open>value - 1\<close>, clamped at 0.
\<close>

definition decrementCounterUseCase :: "world \<Rightarrow> world" where
  "decrementCounterUseCase w = use_case_steps decrement w"

text \<open>
  Modelled from the spec: the window elapsing. At time \<open>t\<close> a pending timer whose deadline
  has come has fired, calling \<open>store.updateCounter\<close> with its value at its deadline.
\<close>

definition advance_to :: "nat \<Rightarrow> world \<Rightarrow> world" where
  "advance_to t w =
     (case pending w of
        None \<Rightarrow> w\<lparr>clock := t\<rparr>
      | Some (deadline, c) \<Rightarrow>
          if deadline \<le> t then
            w\<lparr>clock := t, pending := None,
              updateCounter_calls := updateCounter_calls w @ [(deadline, c)]\<rparr>
          else w\<lparr>clock := t\<rparr>)"

text \<open>A sequence of calls, each with the time it arrives at.\<close>

datatype call = Increment | Decrement

fun useCase :: "call \<Rightarrow> world \<Rightarrow> world" where
  "useCase Increment w = incrementCounterUseCase w"
| "useCase Decrement w = decrementCounterUseCase w"

fun run :: "(nat \<times> call) list \<Rightarrow> world \<Rightarrow> world" where
  "run [] w = w"
| "run ((t, c) # cs) w = run cs (useCase c (advance_to t w))"

text \<open>
  Every call of a sequence arrives before the window of the call before it has elapsed
  (\<open>prev\<close> is the time of that call).
\<close>

fun within_window :: "nat \<Rightarrow> (nat \<times> call) list \<Rightarrow> bool" where
  "within_window prev [] = True"
| "within_window prev ((t, c) # cs) =
     (prev \<le> t \<and> t < prev + debounce_window \<and> within_window t cs)"

fun last_time :: "nat \<Rightarrow> (nat \<times> call) list \<Rightarrow> nat" where
  "last_time prev [] = prev"
| "last_time prev ((t, c) # cs) = last_time t cs"

definition fresh_world :: "int \<Rightarrow> world" where
  "fresh_world v =
     \<lparr>counter = create v, setCounter_calls = [], updateCounter_calls = [], clock = 0,
      pending = None\<rparr>"

section \<open>Invariants, traces and sample inputs\<close>

text \<open>The promise a callback of the service resolves.\<close>

fun promise_of :: "task \<Rightarrow> nat" where
  "promise_of (Resolve_count p) = p"
| "promise_of (Store_then_resolve c p) = p"

text \<open>
  What holds of the service in every state it reaches: a timer not yet fired is due
  within the next second (every delay is 1000 ms), and resolves a promise that has been
  handed out.
\<close>

definition reachable_service :: "service \<Rightarrow> bool" where
  "reachable_service s =
     list_all (\<lambda>(deadline, callback). deadline \<le> now s + 1000 \<and> promise_of callback < issued s)
       (timers s)"






text \<open>The update a call applies.\<close>

fun updateBy :: "call \<Rightarrow> Counter \<Rightarrow> Counter" where
  "updateBy Increment = increment"
| "updateBy Decrement = decrement"

text \<open>Calls of one kind at the given times.\<close>

definition calls_at :: "call \<Rightarrow> nat list \<Rightarrow> (nat \<times> call) list" where
  "calls_at k ts = map (\<lambda>t. (t, k)) ts"

text \<open>The counters \<open>v + 1, ..., v + n\<close> and \<open>v - 1, ..., v - n\<close>.\<close>

fun counting_up :: "int \<Rightarrow> nat \<Rightarrow> Counter list" where
  "counting_up v 0 = []"
| "counting_up v (Suc n) = create (v + 1) # counting_up (v + 1) n"

fun counting_down :: "int \<Rightarrow> nat \<Rightarrow> Counter list" where
  "counting_down v 0 = []"
| "counting_down v (Suc n) = create (v - 1) # counting_down (v - 1) n"

text \<open>Sample requests and responses, those of the tests of \<open>fetchJSON\<close>.\<close>

definition no_props :: FetchJSONProps where
  "no_props = \<lparr>body = None, token = None, headers = None, queryParams = None, method = None\<rparr>"

definition json_response :: response where
  "json_response =
     \<lparr>r_status = 200, r_statusText = ''OK'',
      r_headers = [''content-type'' \<mapsto> ''application/json''],
      r_text = ''{}'', r_json = Some (JObject []), parsedBody = None\<rparr>"

definition xml_response :: response where
  "xml_response =
     \<lparr>r_status = 200, r_statusText = ''OK'',
      r_headers = [''content-type'' \<mapsto> ''text/xml''],
      r_text = ''<Message></Message>'', r_json = None, parsedBody = None\<rparr>"

text \<open>
  A success with an empty body: one that announces JSON (the empty text is not JSON, so
  \<open>json()\<close> rejects) and one that announces nothing.
\<close>

definition empty_json_response :: response where
  "empty_json_response =
     \<lparr>r_status = 200, r_statusText = ''OK'',
      r_headers = [''content-type'' \<mapsto> ''application/json''],
      r_text = [], r_json = None, parsedBody = None\<rparr>"

definition empty_plain_response :: response where
  "empty_plain_response =
     \<lparr>r_status = 200, r_statusText = ''OK'', r_headers = Map.empty,
      r_text = [], r_json = None, parsedBody = None\<rparr>"

definition unauthorized_response :: response where
  "unauthorized_response =
     \<lparr>r_status = 401, r_statusText = ''Unauthorized'',
      r_headers = [''content-type'' \<mapsto> ''application/json''],
      r_text = ''denied'', r_json = None, parsedBody = None\<rparr>"

text \<open>A server that answers at once, and one whose answer comes after the timer.\<close>

definition answers :: "response \<Rightarrow> request \<Rightarrow> event list" where
  "answers r req = [Fetch_fulfils r]"

definition answers_late :: "response \<Rightarrow> request \<Rightarrow> event list" where
  "answers_late r req = [Timer_fires, Fetch_fulfils r]"

definition post_props :: FetchJSONProps where
  "post_props = no_props\<lparr>body := Some (JObject [(''three'', JString ''four'')])\<rparr>"

definition own_content_type_props :: FetchJSONProps where
  "own_content_type_props =
     no_props\<lparr>body := Some (JObject []), headers := Some [''Content-Type'' \<mapsto> ''text/plain'']\<rparr>"

definition zero_body_props :: FetchJSONProps where
  "zero_body_props = no_props\<lparr>body := Some (JNumber 0)\<rparr>"

section \<open>Properties of \<open>toQueryString\<close>\<close>

subsection \<open>Joining and filtering\<close>

lemma pair_string_nonempty: "pair_string key val \<noteq> []"
  by (simp add: pair_string_def)

lemma filter_Boolean_id: "(\<And>x. x \<in> set xs \<Longrightarrow> x \<noteq> []) \<Longrightarrow> filter Boolean_string xs = xs"
  by (induction xs) (auto simp: Boolean_string_def)

lemma join_empty_iff: "(\<And>x. x \<in> set xs \<Longrightarrow> x \<noteq> []) \<Longrightarrow> (join sep xs = []) = (xs = [])"
  by (induction sep xs rule: join.induct) auto

lemma join_Cons: "join sep (x # xs) = (if xs = [] then x else x @ sep @ join sep xs)"
  by (cases xs) auto

lemma join_append:
  "join sep (xs @ ys) =
     (if xs = [] then join sep ys else if ys = [] then join sep xs
      else join sep xs @ sep @ join sep ys)"
  by (induction xs) (auto simp: join_Cons)

lemma parse_Nil: "parse [] = []"
  by (simp add: parse_def)

lemma parse_Cons_empty: "parse ([] # ys) = parse ys"
  by (simp add: parse_def Boolean_string_def)

text \<open>
  The two levels of \<open>parse\<close> flatten: the inner one joins the pairs of one entry, the
  outer one drops the entries that gave no pair and joins the rest.
\<close>

lemma parse_flatten:
  "(\<And>xs x. xs \<in> set xss \<Longrightarrow> x \<in> set xs \<Longrightarrow> x \<noteq> []) \<Longrightarrow>
   parse (map parse xss) = join ''&'' (concat xss)"
proof (induction xss)
  case Nil
  show ?case by (simp add: parse_def)
next
  case (Cons xs xss)
  have ne: "\<And>x. x \<in> set xs \<Longrightarrow> x \<noteq> []" using Cons.prems[of xs] by simp
  have ih: "parse (map parse xss) = join ''&'' (concat xss)"
    by (rule Cons.IH) (use Cons.prems in auto)
  have pxs: "parse xs = join ''&'' xs"
    by (simp add: parse_def filter_Boolean_id ne)
  have cne: "\<And>x. x \<in> set (concat xss) \<Longrightarrow> x \<noteq> []"
    using Cons.prems by auto
  show ?case
  proof (cases "xs = []")
    case True
    then show ?thesis using ih by (simp add: parse_Nil parse_Cons_empty)
  next
    case False
    then have j: "join ''&'' xs \<noteq> []" using join_empty_iff[of xs "''&''"] ne by simp
    have "parse (map parse (xs # xss)) =
            join ''&'' (join ''&'' xs # filter Boolean_string (map parse xss))"
      using j pxs by (simp add: parse_def Boolean_string_def)
    also have "\<dots> = (if filter Boolean_string (map parse xss) = [] then join ''&'' xs
                    else join ''&'' xs @ ''&'' @ parse (map parse xss))"
      by (simp add: join_Cons parse_def)
    finally have step: "parse (map parse (xs # xss)) =
        (if filter Boolean_string (map parse xss) = [] then join ''&'' xs
         else join ''&'' xs @ ''&'' @ join ''&'' (concat xss))"
      using ih by simp
    have emp: "(filter Boolean_string (map parse xss) = []) = (concat xss = [])"
    proof -
      have "(filter Boolean_string (map parse xss) = []) = (parse (map parse xss) = [])"
        unfolding parse_def[of "map parse xss"]
        by (rule join_empty_iff[symmetric]) (auto simp: Boolean_string_def)
      also have "\<dots> = (concat xss = [])"
        unfolding ih by (rule join_empty_iff) (rule cne)
      finally show ?thesis .
    qed
    show ?thesis
      unfolding step emp using False by (simp add: join_append)
  qed
qed

subsection \<open>The encoder\<close>

text \<open>
  The model of \<open>encodeURIComponent\<close> and the percent-encoding of the specification agree:
  on each of the 256 bytes about what is unreserved, on each of the 16 digits about how it
  is written.
\<close>

lemma unreserved_all_chars:
  "list_all (\<lambda>c. unreserved c = (c \<in> set unreserved_characters)) Enum.enum"
  by code_simp

lemma unreserved_iff: "unreserved c = (c \<in> set unreserved_characters)"
  using unreserved_all_chars by (simp add: list_all_iff UNIV_enum[symmetric])

lemma hexDigit_all_digits: "list_all (\<lambda>n. hexDigit n = hex_digits ! n) [0..<16]"
  by code_simp

lemma hexDigit_hex: "n < 16 \<Longrightarrow> hexDigit n = hex_digits ! n"
  using hexDigit_all_digits by (simp add: list_all_iff)

lemma encode_char:
  "(if unreserved c then [c] else percentEncode c) =
   (if c \<in> set unreserved_characters then [c]
    else [CHR ''%'', hex_digits ! (of_char c div 16), hex_digits ! (of_char c mod 16)])"
proof -
  have d: "(of_char c :: nat) div 16 < 16"
    by (rule less_mult_imp_div_less) simp
  show ?thesis
    by (simp add: unreserved_iff percentEncode_def Let_def hexDigit_hex d)
qed

lemma encodeURIComponent_percent_encoded: "encodeURIComponent s = percent_encoded s"
  by (simp add: encodeURIComponent_def percent_encoded_def encode_char)

lemma pair_string_percent_encoded:
  "pair_string key val = percent_encoded key @ ''='' @ percent_encoded val"
  by (simp add: pair_string_def encodeURIComponent_percent_encoded)

lemma join_joined_by_ampersand: "join ''&'' xs = joined_by_ampersand xs"
proof (induction xs)
  case Nil
  show ?case by simp
next
  case (Cons x xs)
  then show ?case by (cases xs) (simp_all add: join_Cons)
qed

subsection \<open>The refinement\<close>

lemma entry_pairs:
  "v \<noteq> QUndefined \<Longrightarrow> map (pair_string key) (concat_value v) = spec_pairs (key, v)"
  by (cases v) (auto simp: pair_string_percent_encoded)

lemma spec_pairs_nonempty: "x \<in> set (spec_pairs e) \<Longrightarrow> x \<noteq> []"
  by (cases e rule: spec_pairs.cases) auto

lemma concat_filter_undefined:
  "concat (map spec_pairs (filter (\<lambda>(key, value). value \<noteq> QUndefined) obj)) =
   concat (map spec_pairs obj)"
  by (induction obj) auto

lemma toQueryString_refines: "toQueryString obj = toQueryString_spec obj"
proof -
  let ?kept = "filter (\<lambda>(key, value). value \<noteq> QUndefined) obj"
  have "map (\<lambda>(key, value). parse (map (pair_string key) (concat_value value))) ?kept =
        map parse (map spec_pairs ?kept)"
    by (induction obj) (auto simp: entry_pairs)
  then have "toQueryString obj = parse (map parse (map spec_pairs ?kept))"
    by (simp only: toQueryString_def)
  also have "\<dots> = join ''&'' (concat (map spec_pairs ?kept))"
    by (rule parse_flatten) (auto dest: spec_pairs_nonempty)
  finally show ?thesis
    by (simp add: toQueryString_spec_def concat_filter_undefined join_joined_by_ampersand)
qed

text \<open>
  Claim C4. For every dictionary, \<open>toQueryString\<close> is the \<open>&\<close>-joined list of the
  \<open>key=value\<close> pairs of its entries, each key and each value percent-encoded: none for an
  \<open>undefined\<close> value, one for a string, one per element in list order for a list. The
  empty dictionary gives the empty string, \<open>{a: "1", b: ["2", "3"]}\<close> gives \<open>a=1&b=2&b=3\<close>
  and \<open>{a: "x", b: undefined}\<close> gives \<open>a=x\<close>. Characters outside the unreserved set are
  encoded in keys and in values: so in the example of the documentation of \<open>fetchJSON\<close>
  and its test (the bytes 195 and 188 are the UTF-8 encoding of the u with diaeresis),
  and in a key and a list that hold \<open>&\<close>, \<open>=\<close>, \<open>%\<close> and a space.
\<close>

theorem toQueryString_correct:
  "toQueryString obj = toQueryString_spec obj
   \<and> toQueryString [] = []
   \<and> toQueryString [(''a'', QString ''1''), (''b'', QList [''2'', ''3''])] = ''a=1&b=2&b=3''
   \<and> toQueryString [(''a'', QString ''x''), (''b'', QUndefined)] = ''a=x''
   \<and> toQueryString
         [(''email'', QString ''hsimpson+existinguser@gmail.com''),
          (''text'', QString (''Hello G'' @ [char_of (195::nat), char_of (188::nat)] @ ''nter'')),
          (''selection'', QList [''first'', ''the second''])] =
       ''email=hsimpson%2Bexistinguser%40gmail.com&text=Hello%20G%C3%BCnter&selection=first&selection=the%20second''
   \<and> toQueryString [(''a b&c'', QList [''x=y'', ''100%'']), (''d/e'', QUndefined)] =
       ''a%20b%26c=x%3Dy&a%20b%26c=100%25''"
proof (intro conjI)
  show "toQueryString obj = toQueryString_spec obj"
    by (rule toQueryString_refines)
  show "toQueryString [] = []"
    by (simp add: toQueryString_def parse_def)
  show "toQueryString [(''a'', QString ''1''), (''b'', QList [''2'', ''3''])] = ''a=1&b=2&b=3''"
    by code_simp
  show "toQueryString [(''a'', QString ''x''), (''b'', QUndefined)] = ''a=x''"
    by code_simp
  show "toQueryString
         [(''email'', QString ''hsimpson+existinguser@gmail.com''),
          (''text'', QString (''Hello G'' @ [char_of (195::nat), char_of (188::nat)] @ ''nter'')),
          (''selection'', QList [''first'', ''the second''])] =
       ''email=hsimpson%2Bexistinguser%40gmail.com&text=Hello%20G%C3%BCnter&selection=first&selection=the%20second''"
    by code_simp
  show "toQueryString [(''a b&c'', QList [''x=y'', ''100%'']), (''d/e'', QUndefined)] =
       ''a%20b%26c=x%3Dy&a%20b%26c=100%25''"
    by code_simp
qed

section \<open>Properties of \<open>fetchJSON\<close>\<close>

subsection \<open>The race between the timer and the network\<close>

lemma deliver_settled: "p \<noteq> Pending \<Longrightarrow> deliver armed p e = p"
  by (cases e; cases p) (simp_all add: resolve_def reject_def)

lemma foldl_deliver_settled: "p \<noteq> Pending \<Longrightarrow> foldl (deliver armed) p es = p"
  by (induction es) (simp_all add: deliver_settled)

lemma race_timer_first:
  "timer_set timeout \<Longrightarrow>
   race timeout (Timer_fires # later) =
     Rejected (Built (buildFetchJSONError TAKE_TOO_LONG 408 TIME_OUT))"
  by (simp add: race_def reject_def foldl_deliver_settled)

lemma race_fetch_first: "race timeout (Fetch_fulfils r # later) = Fulfilled r"
  by (simp add: race_def resolve_def foldl_deliver_settled)

lemma race_fetch_rejects_first:
  "race timeout (Fetch_rejects e # later) = Rejected (Fetch_failed e)"
  by (simp add: race_def reject_def foldl_deliver_settled)

text \<open>Without a timer the call waits for the network, however long.\<close>

lemma race_no_timer: "\<not> timer_set timeout \<Longrightarrow> race timeout (Timer_fires # later) = race timeout later"
  by (simp add: race_def)

text \<open>A network failure is handed on as it is.\<close>

lemma fetchJSON_network_error:
  "env (fetch_call endpoint props) = Fetch_rejects e # later \<Longrightarrow>
   fetchJSON endpoint props timeout env = Rejected (Fetch_failed e)"
  by (simp add: fetchJSON_def race_fetch_rejects_first then_promise_def)

text \<open>
  Claim C5. When \<open>timeout\<close> is a positive number and the timer fires before the promise
  of \<open>fetch\<close> has settled, the returned promise is rejected with an error whose message
  is \<open>ERRORS.TAKE_TOO_LONG\<close> and whose status is 408. Nothing cancels the network call:
  whatever it does later (\<open>later\<close>: it resolves, it rejects, or it never settles) is
  delivered and leaves the rejection as it is.
\<close>

theorem fetchJSON_timeout:
  assumes "timeout = Some t" and "0 < t"
    and "env (fetch_call endpoint props) = Timer_fires # later"
  shows "fetchJSON endpoint props timeout env =
           Rejected (Built (FetchJSONError ''Request take too long to complete'' 408 ''Request timeout''))"
proof -
  have "timer_set timeout" using assms(1,2) by (simp add: timer_set_def)
  then show ?thesis
    using assms(3)
    by (simp add: fetchJSON_def race_timer_first then_promise_def buildFetchJSONError_def
        TAKE_TOO_LONG_def TIME_OUT_def)
qed

theorem fetchJSON_timeout_witness:
  "fetchJSON ''https://fake.com'' no_props (Some 1000) (answers_late json_response) =
     Rejected (Built (FetchJSONError ''Request take too long to complete'' 408 ''Request timeout''))"
  by (rule fetchJSON_timeout[where t = 1000 and later = "[Fetch_fulfils json_response]"])
    (simp_all add: answers_late_def)

subsection \<open>The response\<close>

text \<open>Whatever the events, a fulfilled call carries a successful response with its parsed body.\<close>

lemma onResponse_Fulfilled: "onResponse r = Fulfilled x \<Longrightarrow> ok x \<and> parsedBody x \<noteq> None"
  by (auto simp: onResponse_def ok_def split: if_splits option.splits)

lemma fetchJSON_Fulfilled:
  "fetchJSON endpoint props timeout env = Fulfilled x \<Longrightarrow> ok x \<and> parsedBody x \<noteq> None"
  by (auto simp: fetchJSON_def then_promise_def split: promise.splits dest: onResponse_Fulfilled)

text \<open>
  Claim C6. When \<open>fetch\<close> resolves with a response whose status is not in the 2xx range,
  the returned promise is rejected, never fulfilled, with an error whose message is the
  text of the body, whose status is the status of the response and whose statusText is
  its statusText.
\<close>

theorem fetchJSON_http_error:
  assumes "env (fetch_call endpoint props) = Fetch_fulfils r # later"
    and "r_status r < 200 \<or> 299 < r_status r"
  shows "fetchJSON endpoint props timeout env =
           Rejected (Built (FetchJSONError (r_text r) (r_status r) (r_statusText r)))"
  using assms
  by (auto simp add: fetchJSON_def race_fetch_first then_promise_def onResponse_def ok_def
      buildFetchJSONError_def)

theorem fetchJSON_http_error_witness:
  "fetchJSON ''https://fake.com'' no_props None (answers unauthorized_response) =
     Rejected (Built (FetchJSONError ''denied'' 401 ''Unauthorized''))"
  using fetchJSON_http_error[of "answers unauthorized_response" "''https://fake.com''" no_props
      unauthorized_response "[]" None]
  by (simp add: answers_def unauthorized_response_def)

text \<open>
  What the handler does with a 2xx response. The \<open>content-type\<close> header decides: if it
  contains \<open>application/json\<close> the body goes through \<open>response.json()\<close>, and the
  promise is fulfilled with the parsed value as \<open>parsedBody\<close> or rejected with the syntax
  error of the parser; otherwise the promise is fulfilled with the text of the body as
  \<open>parsedBody\<close>.
\<close>

lemma fetchJSON_on_success:
  assumes "env (fetch_call endpoint props) = Fetch_fulfils r # later"
    and "200 \<le> r_status r" and "r_status r \<le> 299"
  shows "fetchJSON endpoint props timeout env =
           (if isJsonType r then
              (case r_json r of
                 Some j \<Rightarrow> Fulfilled (r\<lparr>parsedBody := Some j\<rparr>)
               | None \<Rightarrow> Rejected Json_syntax_error)
            else Fulfilled (r\<lparr>parsedBody := Some (JString (r_text r))\<rparr>))"
  using assms
  by (simp add: fetchJSON_def race_fetch_first then_promise_def onResponse_def ok_def)

text \<open>
  The test with \<open>text/xml\<close>: the text is the parsed body, whatever \<open>json()\<close> would have
  given. And the test with JSON.
\<close>

lemma fetchJSON_xml_text:
  "fetchJSON ''https://fake.com'' no_props None (answers (xml_response\<lparr>r_json := j\<rparr>)) =
     Fulfilled (xml_response\<lparr>r_json := j, parsedBody := Some (JString ''<Message></Message>'')\<rparr>)"
  by (simp add: fetchJSON_def race_fetch_first then_promise_def onResponse_def answers_def
      ok_def isJsonType_def xml_response_def)

lemma fetchJSON_json_body:
  "fetchJSON ''https://fake.com'' no_props None (answers json_response) =
     Fulfilled (json_response\<lparr>parsedBody := Some (JObject [])\<rparr>)"
  by (simp add: fetchJSON_def race_fetch_first then_promise_def onResponse_def answers_def
      ok_def isJsonType_def json_response_def)

text \<open>An empty body at status 200 is accepted where the body is taken as text.\<close>

lemma fetchJSON_empty_text_body:
  "fetchJSON ''https://fake.com'' no_props None (answers empty_plain_response) =
     Fulfilled (empty_plain_response\<lparr>parsedBody := Some (JString [])\<rparr>)"
  by (simp add: fetchJSON_def race_fetch_first then_promise_def onResponse_def answers_def
      ok_def isJsonType_def empty_plain_response_def)

text \<open>
  Claim C7. Every 2xx response is to fulfil the promise, its body parsed as JSON or taken
  as text as the \<open>content-type\<close> header says; the documentation of \<open>fetchJSON\<close> says the
  same: the response is returned once the request has reached the endpoint, and an empty
  body is valid at status 200. The code does otherwise for a response with status 200
  that announces JSON and has an empty body: \<open>response.json()\<close> rejects on it, nothing
  catches that, and the promise is rejected.
\<close>

theorem fetchJSON_empty_json_body_rejects:
  "ok empty_json_response
   \<and> isJsonType empty_json_response
   \<and> r_text empty_json_response = []
   \<and> fetchJSON ''https://fake.com'' no_props None (answers empty_json_response) =
       Rejected Json_syntax_error"
  by (simp add: fetchJSON_def race_fetch_first then_promise_def onResponse_def answers_def
      ok_def isJsonType_def empty_json_response_def)

subsection \<open>The request\<close>

lemma falsy_iff:
  "(\<not> truthy j) = (j = JNull \<or> j = JNumber 0 \<or> j = JBoolean False \<or> j = JString [])"
  by (cases j) auto

lemma structured_truthy: "structured j \<Longrightarrow> truthy j"
  by (cases j) auto

text \<open>The method is forced to \<open>POST\<close> exactly for a truthy body.\<close>

lemma post_forced_iff:
  "(temp_method (prepare props) = ''POST'') = (case body props of None \<Rightarrow> False | Some b \<Rightarrow> truthy b)"
  by (simp add: prepare_def with_body_def with_token_def split: option.splits)

lemma truthy_body_request:
  assumes "body props = Some b" and "truthy b"
  shows "req_method (fetch_call endpoint props) = (case method props of None \<Rightarrow> ''POST'' | Some m \<Rightarrow> m)"
    and "req_body (fetch_call endpoint props) = Some (JSON_stringify b)"
    and "req_headers (fetch_call endpoint props) ''Content-Type'' =
           (case headers props of
              None \<Rightarrow> Some ''application/json''
            | Some h \<Rightarrow> (case h ''Content-Type'' of None \<Rightarrow> Some ''application/json'' | Some v \<Rightarrow> Some v))"
  using assms
  by (auto simp: fetch_call_def prepare_def with_body_def Let_def map_add_def split: option.splits)

text \<open>
  Claim C8, as the code has it. When \<open>options.body\<close> is structured data (an object or an
  array), the request handed to \<open>fetch\<close> has the method \<open>options.method\<close> if that is
  given and \<open>POST\<close> otherwise, its body is \<open>JSON.stringify(body)\<close>, and its
  \<open>Content-Type\<close> header is \<open>application/json\<close> unless \<open>options.headers\<close> has a
  \<open>Content-Type\<close> of its own, which then stands.
\<close>

theorem body_forces_post:
  assumes "body props = Some b" and "structured b"
  shows "req_method (fetch_call endpoint props) = (case method props of None \<Rightarrow> ''POST'' | Some m \<Rightarrow> m)
       \<and> req_body (fetch_call endpoint props) = Some (JSON_stringify b)
       \<and> req_headers (fetch_call endpoint props) ''Content-Type'' =
           (case headers props of
              None \<Rightarrow> Some ''application/json''
            | Some h \<Rightarrow> (case h ''Content-Type'' of None \<Rightarrow> Some ''application/json'' | Some v \<Rightarrow> Some v))"
  using truthy_body_request[OF assms(1) structured_truthy[OF assms(2)]] by simp

theorem body_forces_post_witness:
  "req_method (fetch_call ''https://fake.com'' post_props) = ''POST''
   \<and> req_body (fetch_call ''https://fake.com'' post_props) =
       Some (JSON_stringify (JObject [(''three'', JString ''four'')]))
   \<and> req_headers (fetch_call ''https://fake.com'' post_props) ''Content-Type'' =
       Some ''application/json''"
  using body_forces_post[of post_props "JObject [(''three'', JString ''four'')]" "''https://fake.com''"]
  by (simp add: post_props_def no_props_def)

text \<open>
  The claim as the specification states it, that the header is set whenever the body is
  structured data, fails for a caller that passes a \<open>Content-Type\<close> of its own: the
  request carries the caller's.
\<close>

theorem body_forces_post_counterexample:
  "body own_content_type_props = Some (JObject [])
   \<and> structured (JObject [])
   \<and> req_headers (fetch_call ''https://fake.com'' own_content_type_props) ''Content-Type'' =
       Some ''text/plain''
   \<and> req_headers (fetch_call ''https://fake.com'' own_content_type_props) ''Content-Type'' \<noteq>
       Some ''application/json''"
  by (simp add: own_content_type_props_def no_props_def fetch_call_def prepare_def with_body_def
      with_token_def)

text \<open>
  Claim C10. When \<open>options.body\<close> is a falsy JSON value (\<open>null\<close>, \<open>0\<close>, \<open>false\<close> or the
  empty string), the body is not serialized, no \<open>Content-Type\<close> header is added and the
  method stays \<open>GET\<close>: \<open>temp\<close> and \<open>headers\<close>, and with them the request handed to
  \<open>fetch\<close>, are those of the same call without a body. That request has no body, the
  \<open>Content-Type\<close> of \<open>options.headers\<close> if there is one and none otherwise, and the
  method \<open>GET\<close> unless \<open>options.method\<close> names another.
\<close>

theorem falsy_body_ignored:
  assumes "body props = Some b"
    and "b = JNull \<or> b = JNumber 0 \<or> b = JBoolean False \<or> b = JString []"
  shows "temp_method (prepare props) = ''GET''
       \<and> temp_body (prepare props) = None
       \<and> own_headers (prepare props) ''Content-Type'' = None
       \<and> prepare props = prepare (props\<lparr>body := None\<rparr>)
       \<and> fetch_call endpoint props = fetch_call endpoint (props\<lparr>body := None\<rparr>)
       \<and> req_body (fetch_call endpoint props) = None
       \<and> req_method (fetch_call endpoint props) = (case method props of None \<Rightarrow> ''GET'' | Some m \<Rightarrow> m)
       \<and> req_headers (fetch_call endpoint props) ''Content-Type'' =
           (case headers props of None \<Rightarrow> None | Some h \<Rightarrow> h ''Content-Type'')"
  using assms
  by (auto simp: fetch_call_def prepare_def with_body_def with_token_def query_def Let_def
      map_add_def split: option.splits)

theorem falsy_body_ignored_witness:
  "temp_method (prepare zero_body_props) = ''GET''
   \<and> temp_body (prepare zero_body_props) = None
   \<and> own_headers (prepare zero_body_props) ''Content-Type'' = None
   \<and> req_body (fetch_call ''https://fake.com'' zero_body_props) = None
   \<and> req_method (fetch_call ''https://fake.com'' zero_body_props) = ''GET''
   \<and> req_headers (fetch_call ''https://fake.com'' zero_body_props) ''Content-Type'' = None"
  using falsy_body_ignored[of zero_body_props "JNumber 0" "''https://fake.com''"]
  by (simp add: zero_body_props_def no_props_def fetch_call_def prepare_def with_body_def
      with_token_def)

section \<open>Properties of the simulated remote service\<close>

subsection \<open>The order timers fire in\<close>

lemma insort_key_snoc:
  "f y \<le> f x \<Longrightarrow> insort_key f y (zs @ [x]) = insort_key f y zs @ [x]"
  by (induction zs) auto

lemma sort_key_snoc:
  "(\<And>y. y \<in> set ys \<Longrightarrow> f y \<le> f x) \<Longrightarrow> sort_key f (ys @ [x]) = sort_key f ys @ [x]"
proof (induction ys)
  case Nil
  show ?case by simp
next
  case (Cons y ys)
  then have "sort_key f (ys @ [x]) = sort_key f ys @ [x]" by simp
  moreover have "f y \<le> f x" using Cons.prems by simp
  ultimately show ?case by (simp add: insort_key_snoc)
qed

lemma run_task_other: "promise_of t \<noteq> p \<Longrightarrow> promises (run_task s t) p = promises s p"
  by (cases t) (simp_all add: Let_def)


lemma foldl_run_task_other:
  "(\<And>t. t \<in> set ts \<Longrightarrow> promise_of t \<noteq> p) \<Longrightarrow> promises (foldl run_task s ts) p = promises s p"
  by (induction ts arbitrary: s) (simp_all add: run_task_other)



lemma getCounter_state:
  assumes "getCounter s = (p, s1)"
  shows "p = issued s" and "timers s1 = timers s @ [(now s + 1000, Resolve_count p)]"
    and "now s1 = now s" and "count s1 = count s" and "promises s1 p = Pending"
    and "issued s1 = Suc (issued s)"
  using assms by (auto simp: getCounter_def new_Promise_def setTimeout_def)


lemma reachable_timer:
  "reachable_service s \<Longrightarrow> (d, t) \<in> set (timers s) \<Longrightarrow> d \<le> now s + 1000 \<and> promise_of t < issued s"
  by (auto simp: reachable_service_def list_all_iff)


text \<open>A timer set last and due: it fires after every timer set before it.\<close>

lemma advance_due:
  assumes r: "reachable_service s"
    and t1: "timers s1 = timers s @ [(now s + 1000, t)]"
    and n1: "now s1 = now s"
    and ms: "1000 \<le> ms"
  shows "advanceTimersByTime ms s1 =
           (run_task (foldl run_task s1 (map snd (sort_key fst (timers s)))) t)
             \<lparr>now := now s + ms, timers := []\<rparr>"
proof -
  let ?P = "\<lambda>(deadline, callback). deadline \<le> now s + ms"
  have all: "\<And>x. x \<in> set (timers s) \<Longrightarrow> ?P x"
    using reachable_timer[OF r] ms by fastforce
  have keep: "filter ?P (timers s) = timers s"
    using all by (simp add: filter_id_conv)
  have drop: "filter (\<lambda>x. \<not> ?P x) (timers s) = []"
    using all by (simp add: filter_empty_conv)
  have le: "\<And>y. y \<in> set (timers s) \<Longrightarrow> fst y \<le> fst (now s + 1000, t)"
    using reachable_timer[OF r] by fastforce
  have sorted: "sort_key fst (timers s @ [(now s + 1000, t)]) = sort_key fst (timers s) @ [(now s + 1000, t)]"
    by (rule sort_key_snoc) (rule le)
  have notP: "(\<lambda>(deadline, callback). \<not> deadline \<le> now s + ms) = (\<lambda>x. \<not> ?P x)"
    by auto
  show ?thesis
    using ms by (simp add: advanceTimersByTime_def t1 n1 Let_def keep drop sorted notP)
qed

lemma pending_before_last:
  assumes r: "reachable_service s" and pp: "promises s1 (issued s) = Pending"
  shows "promises (foldl run_task s1 (map snd (sort_key fst (timers s)))) (issued s) = Pending"
proof -
  have other: "\<And>u. u \<in> set (map snd (sort_key fst (timers s))) \<Longrightarrow> promise_of u \<noteq> issued s"
    using reachable_timer[OF r] by fastforce
  have "promises (foldl run_task s1 (map snd (sort_key fst (timers s)))) (issued s) =
        promises s1 (issued s)"
    by (rule foldl_run_task_other) (rule other)
  then show ?thesis using pp by simp
qed

lemma getCounter_resolves:
  assumes r: "reachable_service s" and g: "getCounter s = (p, s1)" and ms: "1000 \<le> ms"
  shows "promises (advanceTimersByTime ms s1) p = Fulfilled (create (count (advanceTimersByTime ms s1)))"
proof -
  note st = getCounter_state[OF g]
  let ?m = "foldl run_task s1 (map snd (sort_key fst (timers s)))"
  have pend: "promises ?m p = Pending"
    using pending_before_last[OF r] st(1,5) by simp
  have "advanceTimersByTime ms s1 = (run_task ?m (Resolve_count p))\<lparr>now := now s + ms, timers := []\<rparr>"
    by (rule advance_due[OF r st(2) st(3) ms])
  then show ?thesis using pend by (simp add: resolve_def)
qed



lemma reachable_no_timers: "timers s = [] \<Longrightarrow> reachable_service s"
  by (simp add: reachable_service_def)


subsection \<open>Every reached state is as described\<close>


lemma reachable_getCounter:
  assumes "reachable_service s" and "getCounter s = (p, s1)"
  shows "reachable_service s1"
  using assms getCounter_state[OF assms(2)]
  by (auto simp: reachable_service_def list_all_iff)



text \<open>With nothing else in flight, \<open>getCounter\<close> resolves with the count as it is now.\<close>

lemma getCounter_alone:
  assumes "timers s = []" and "getCounter s = (p, s1)"
  shows "promises (advanceTimersByTime 1000 s1) p = Fulfilled (create (count s))"
proof -
  note st = getCounter_state[OF assms(2)]
  have "count (advanceTimersByTime 1000 s1) = count s"
    using st assms(1) by (simp add: advanceTimersByTime_def Let_def)
  then show ?thesis
    using getCounter_resolves[OF reachable_no_timers[OF assms(1)] assms(2) order_refl] by simp
qed

subsection \<open>The stored count\<close>











section \<open>Properties of the use cases\<close>

subsection \<open>One call\<close>

lemma useCase_fields:
  "counter (use_case_steps f w) = f (counter w)"
  "setCounter_calls (use_case_steps f w) = setCounter_calls w @ [f (counter w)]"
  "updateCounter_calls (use_case_steps f w) = updateCounter_calls w"
  "clock (use_case_steps f w) = clock w"
  "pending (use_case_steps f w) = Some (clock w + debounce_window, f (counter w))"
  by (simp_all add: use_case_steps_def schedule_update_def setCounter_def Let_def)

lemma useCase_updateBy: "useCase k w = use_case_steps (updateBy k) w"
  by (cases k) (simp_all add: incrementCounterUseCase_def decrementCounterUseCase_def)

lemma advance_to_fields:
  "counter (advance_to t w) = counter w"
  "setCounter_calls (advance_to t w) = setCounter_calls w"
  "clock (advance_to t w) = t"
  by (simp_all add: advance_to_def split: option.splits)

lemma advance_to_before:
  "pending w = Some (d, c) \<Longrightarrow> t < d \<Longrightarrow>
   updateCounter_calls (advance_to t w) = updateCounter_calls w \<and> pending (advance_to t w) = Some (d, c)"
  by (simp add: advance_to_def)

lemma advance_to_pending:
  "pending w = Some (d, c) \<Longrightarrow>
   updateCounter_calls (advance_to t w) = updateCounter_calls w @ (if d \<le> t then [(d, c)] else [])"
  by (simp add: advance_to_def)

text \<open>
  The two tests of the use cases, replayed. The store of the tests is a mock whose
  \<open>setCounter\<close> leaves \<open>counter\<close> alone; the second call of each test is given the counter
  the test gives it.
\<close>

lemma test_incrementCounterUseCase:
  "setCounter_calls (advance_to 500 (incrementCounterUseCase (fresh_world 0))) = [create 1]
   \<and> updateCounter_calls
       (advance_to 1000
          (incrementCounterUseCase
             ((advance_to 500 (incrementCounterUseCase (fresh_world 0)))\<lparr>counter := create 1\<rparr>))) =
       [(500, create 1), (1000, create 2)]"
  by (simp add: fresh_world_def advance_to_def incrementCounterUseCase_def use_case_steps_def
      schedule_update_def setCounter_def increment_def create_def debounce_window_def Let_def)

lemma test_decrementCounterUseCase:
  "setCounter_calls (advance_to 500 (decrementCounterUseCase (fresh_world 3))) = [create 2]
   \<and> updateCounter_calls
       (advance_to 1000
          (decrementCounterUseCase
             ((advance_to 500 (decrementCounterUseCase (fresh_world 3)))\<lparr>counter := create 1\<rparr>))) =
       [(500, create 2), (1000, create 0)]"
  by (simp add: fresh_world_def advance_to_def decrementCounterUseCase_def use_case_steps_def
      schedule_update_def setCounter_def decrement_def create_def debounce_window_def Let_def)

subsection \<open>Superseded writes\<close>

text \<open>One call that arrives while a timer is pending replaces that timer.\<close>

lemma supersede_step:
  assumes "pending w = Some (d, c)" and "t < d"
  shows "updateCounter_calls (useCase k (advance_to t w)) = updateCounter_calls w"
    and "pending (useCase k (advance_to t w)) =
           Some (t + debounce_window, counter (useCase k (advance_to t w)))"
    and "clock (useCase k (advance_to t w)) = t"
  using assms advance_to_before[of w d c t]
  by (simp_all add: useCase_updateBy useCase_fields advance_to_fields)

lemma run_within_window:
  assumes "pending w = Some (prev + debounce_window, counter w)" and "within_window prev cs"
  shows "updateCounter_calls (run cs w) = updateCounter_calls w
       \<and> pending (run cs w) = Some (last_time prev cs + debounce_window, counter (run cs w))"
  using assms
proof (induction cs arbitrary: w prev)
  case Nil
  then show ?case by simp
next
  case (Cons a cs)
  obtain t k where a: "a = (t, k)" by (cases a)
  let ?w = "useCase k (advance_to t w)"
  have lt: "t < prev + debounce_window" and win: "within_window t cs"
    using Cons.prems(2) a by simp_all
  note step = supersede_step[OF Cons.prems(1) lt, of k]
  have "updateCounter_calls (run cs ?w) = updateCounter_calls ?w
       \<and> pending (run cs ?w) = Some (last_time t cs + debounce_window, counter (run cs ?w))"
    by (rule Cons.IH) (use step win in simp_all)
  then show ?case using step a by simp
qed

lemma first_call:
  assumes "case pending w of None \<Rightarrow> True | Some (d, c) \<Rightarrow> t < d"
  shows "updateCounter_calls (useCase k (advance_to t w)) = updateCounter_calls w"
    and "pending (useCase k (advance_to t w)) =
           Some (t + debounce_window, counter (useCase k (advance_to t w)))"
  using assms
  by (auto simp add: useCase_updateBy useCase_fields advance_to_fields advance_to_def
      split: option.splits)

lemma burst_one_write:
  assumes "case pending w of None \<Rightarrow> True | Some (d, c) \<Rightarrow> t < d"
    and "within_window t cs"
  shows "updateCounter_calls (advance_to T (run ((t, k) # cs) w)) =
           updateCounter_calls w @
             (if last_time t cs + debounce_window \<le> T
              then [(last_time t cs + debounce_window, counter (run ((t, k) # cs) w))] else [])"
proof -
  let ?w = "useCase k (advance_to t w)"
  note f = first_call[OF assms(1), of k]
  have r: "updateCounter_calls (run cs ?w) = updateCounter_calls ?w
       \<and> pending (run cs ?w) = Some (last_time t cs + debounce_window, counter (run cs ?w))"
    by (rule run_within_window) (use f assms(2) in simp_all)
  show ?thesis
    using r f(1) advance_to_pending[of "run cs ?w"] by simp
qed

lemma two_increments:
  "updateCounter_calls (advance_to T (run [(0, Increment), (400, Increment)] (fresh_world v))) =
     (if 900 \<le> T then [(900, create (v + 2))] else [])"
  by (simp add: fresh_world_def advance_to_def incrementCounterUseCase_def use_case_steps_def
      schedule_update_def setCounter_def increment_def create_def debounce_window_def Let_def)

text \<open>
  Claim C1. Take a sequence of calls of the two use cases in which every call arrives
  before the window of 500 ms of the call before it has elapsed (and the first before
  whatever timer was pending is due). Then none of the remote writes scheduled by the
  earlier calls is ever made: up to any time \<open>T\<close> the only call of
  \<open>store.updateCounter\<close> is the one of the last call of the sequence, 500 ms after it and
  with the value the counter has after the whole sequence. For increments at 0 ms and
  400 ms and nothing after, \<open>store.updateCounter\<close> is called exactly once, at 900 ms, with
  the value after both increments.
\<close>

theorem debounce_supersedes:
  assumes "case pending w of None \<Rightarrow> True | Some (d, c) \<Rightarrow> t < d"
    and "within_window t cs"
  shows "updateCounter_calls (advance_to T (run ((t, k) # cs) w)) =
           updateCounter_calls w @
             (if last_time t cs + debounce_window \<le> T
              then [(last_time t cs + debounce_window, counter (run ((t, k) # cs) w))] else [])
       \<and> updateCounter_calls (advance_to T (run [(0, Increment), (400, Increment)] (fresh_world v))) =
           (if 900 \<le> T then [(900, create (v + 2))] else [])"
  using burst_one_write[OF assms] two_increments by simp

theorem debounce_supersedes_witness:
  "updateCounter_calls
     (advance_to 2000 (run [(0, Increment), (400, Increment), (700, Decrement)] (fresh_world 0))) =
     [(1200, create 1)]
   \<and> updateCounter_calls (advance_to 2000 (run [(0, Increment), (400, Increment)] (fresh_world 0))) =
       [(900, create 2)]"
proof -
  have h1: "case pending (fresh_world 0) of None \<Rightarrow> True | Some (d, c) \<Rightarrow> 0 < d"
    by (simp add: fresh_world_def)
  have h2: "within_window 0 [(400, Increment), (700, Decrement)]"
    by (simp add: debounce_window_def)
  have due: "last_time 0 [(400, Increment), (700, Decrement)] + debounce_window = 1200"
    by (simp add: debounce_window_def)
  have c: "counter (run [(0, Increment), (400, Increment), (700, Decrement)] (fresh_world 0)) = create 1"
    by (simp add: fresh_world_def advance_to_def incrementCounterUseCase_def
        decrementCounterUseCase_def use_case_steps_def schedule_update_def setCounter_def
        increment_def decrement_def create_def debounce_window_def Let_def)
  have none: "updateCounter_calls (fresh_world 0) = []"
    by (simp add: fresh_world_def)
  show ?thesis
    using debounce_supersedes[OF h1 h2, of 2000 Increment 0]
    unfolding due c none by simp
qed

subsection \<open>Up and down again\<close>

lemma run_append: "run (xs @ ys) w = run ys (run xs w)"
  by (induction xs arbitrary: w) auto

lemma Counter_create: "create (value c) = c"
  by (simp add: create_def)

lemma value_create: "value (create n) = n"
  by (simp add: create_def)

lemma run_increments:
  "counter (run (calls_at Increment ts) w) = create (value (counter w) + int (length ts))
   \<and> setCounter_calls (run (calls_at Increment ts) w) =
       setCounter_calls w @ counting_up (value (counter w)) (length ts)"
proof (induction ts arbitrary: w)
  case Nil
  show ?case by (simp add: calls_at_def Counter_create)
next
  case (Cons t ts)
  let ?w = "incrementCounterUseCase (advance_to t w)"
  have c: "counter ?w = create (value (counter w) + 1)"
    and l: "setCounter_calls ?w = setCounter_calls w @ [create (value (counter w) + 1)]"
    by (simp_all add: incrementCounterUseCase_def useCase_fields advance_to_fields increment_def)
  have "run (calls_at Increment (t # ts)) w = run (calls_at Increment ts) ?w"
    by (simp add: calls_at_def)
  then show ?case
    using Cons.IH[of ?w] by (simp add: c l value_create add.assoc)
qed

lemma run_decrements:
  "int (length ts) \<le> value (counter w) \<Longrightarrow>
   counter (run (calls_at Decrement ts) w) = create (value (counter w) - int (length ts))
   \<and> setCounter_calls (run (calls_at Decrement ts) w) =
       setCounter_calls w @ counting_down (value (counter w)) (length ts)"
proof (induction ts arbitrary: w)
  case Nil
  show ?case by (simp add: calls_at_def Counter_create)
next
  case (Cons t ts)
  let ?w = "decrementCounterUseCase (advance_to t w)"
  have pos: "1 \<le> value (counter w)" using Cons.prems by simp
  have c: "counter ?w = create (value (counter w) - 1)"
    and l: "setCounter_calls ?w = setCounter_calls w @ [create (value (counter w) - 1)]"
    using pos
    by (simp_all add: decrementCounterUseCase_def useCase_fields advance_to_fields decrement_def)
  have le: "int (length ts) \<le> value (counter ?w)"
    using Cons.prems by (simp add: c value_create)
  have "run (calls_at Decrement (t # ts)) w = run (calls_at Decrement ts) ?w"
    by (simp add: calls_at_def)
  then show ?case
    using Cons.IH[OF le] by (simp add: c l value_create)
qed

text \<open>
  Claim C2. From any counter (a Counter has \<open>value \<ge> 0\<close>), \<open>n\<close> calls of
  \<open>incrementCounterUseCase\<close> followed by \<open>n\<close> calls of \<open>decrementCounterUseCase\<close>, at
  whatever times and whatever remote write is pending, bring the counter of the store back
  to where it was, and every one of the calls has called \<open>store.setCounter\<close> with the new
  value: \<open>v + 1, ..., v + n\<close> and then \<open>v + n - 1, ..., v\<close>.
\<close>

theorem increments_then_decrements:
  assumes "0 \<le> value (counter w)" and "length ts = n" and "length us = n"
  shows "counter (run (calls_at Increment ts @ calls_at Decrement us) w) = counter w
       \<and> setCounter_calls (run (calls_at Increment ts @ calls_at Decrement us) w) =
           setCounter_calls w @ counting_up (value (counter w)) n
             @ counting_down (value (counter w) + int n) n"
proof -
  let ?u = "run (calls_at Increment ts) w"
  have up: "counter ?u = create (value (counter w) + int n)"
    and upl: "setCounter_calls ?u = setCounter_calls w @ counting_up (value (counter w)) n"
    using run_increments[of ts w] assms(2) by simp_all
  have le: "int (length us) \<le> value (counter ?u)"
    using assms(1,3) by (simp add: up value_create)
  note down = run_decrements[OF le]
  show ?thesis
    using down assms(3) by (simp add: run_append up upl value_create Counter_create)
qed

theorem increments_then_decrements_witness:
  "counter (run (calls_at Increment [0, 100] @ calls_at Decrement [150, 2000]) (fresh_world 3)) = create 3
   \<and> setCounter_calls (run (calls_at Increment [0, 100] @ calls_at Decrement [150, 2000]) (fresh_world 3)) =
       [create 4, create 5, create 4, create 3]"
  using increments_then_decrements[where w = "fresh_world 3" and ts = "[0, 100]" and n = 2
      and us = "[150, 2000]"]
  by (simp add: fresh_world_def value_create numeral_2_eq_2)

subsection \<open>Never below zero\<close>






end
